theory Spec2Isabelle
  imports Complex_Main "HOL-Library.AList"
begin

section \<open>JavaScript values used by the piano's audio code\<close>

text \<open>
  A JavaScript number is an IEEE-754 double.  The embedding keeps the exact real value of
  every finite result and the two range effects of the format: a result whose magnitude
  reaches \<open>2 ^ 1024\<close> is an infinity, a result smaller in magnitude than \<open>2 ^ -1075\<close> is
  zero.  Rounding inside the range is not represented, and neither is the sign of zero.
\<close>

datatype jsnum = NaN | PosInf | NegInf | Fin real

definition fl :: "real \<Rightarrow> jsnum" where
  "fl x = (if 2 ^ 1024 \<le> x then PosInf
           else if x \<le> - (2 ^ 1024) then NegInf
           else if \<bar>x\<bar> < 1 / 2 ^ 1075 then Fin 0
           else Fin x)"

fun jmul :: "jsnum \<Rightarrow> jsnum \<Rightarrow> jsnum" where
  "jmul NaN y = NaN"
| "jmul x NaN = NaN"
| "jmul (Fin a) (Fin b) = fl (a * b)"
| "jmul (Fin a) PosInf = (if 0 < a then PosInf else if a < 0 then NegInf else NaN)"
| "jmul (Fin a) NegInf = (if 0 < a then NegInf else if a < 0 then PosInf else NaN)"
| "jmul PosInf (Fin b) = (if 0 < b then PosInf else if b < 0 then NegInf else NaN)"
| "jmul NegInf (Fin b) = (if 0 < b then NegInf else if b < 0 then PosInf else NaN)"
| "jmul PosInf PosInf = PosInf"
| "jmul PosInf NegInf = NegInf"
| "jmul NegInf PosInf = NegInf"
| "jmul NegInf NegInf = PosInf"

text \<open>\<open>x - c\<close> and \<open>x / c\<close> for a finite constant \<open>c\<close> (\<open>c > 0\<close> for the division).\<close>

fun jsub_const :: "jsnum \<Rightarrow> real \<Rightarrow> jsnum" where
  "jsub_const (Fin a) c = fl (a - c)"
| "jsub_const x c = x"

fun jdiv_const :: "jsnum \<Rightarrow> real \<Rightarrow> jsnum" where
  "jdiv_const (Fin a) c = fl (a / c)"
| "jdiv_const x c = x"

text \<open>\<open>Math.pow(2, x)\<close>.\<close>

fun jpow2 :: "jsnum \<Rightarrow> jsnum" where
  "jpow2 (Fin x) = fl (2 powr x)"
| "jpow2 PosInf = PosInf"
| "jpow2 NegInf = Fin 0"
| "jpow2 NaN = NaN"

text \<open>The comparisons \<open>x >= c\<close> and \<open>x < c\<close> against a finite constant, and \<open>x < y\<close>.\<close>

fun jge_const :: "jsnum \<Rightarrow> real \<Rightarrow> bool" where
  "jge_const (Fin a) c = (c \<le> a)"
| "jge_const PosInf c = True"
| "jge_const x c = False"

fun jlt_const :: "jsnum \<Rightarrow> real \<Rightarrow> bool" where
  "jlt_const (Fin a) c = (a < c)"
| "jlt_const NegInf c = True"
| "jlt_const x c = False"

fun jless :: "jsnum \<Rightarrow> jsnum \<Rightarrow> bool" where
  "jless NaN y = False"
| "jless x NaN = False"
| "jless (Fin a) (Fin b) = (a < b)"
| "jless (Fin a) PosInf = True"
| "jless NegInf (Fin b) = True"
| "jless NegInf PosInf = True"
| "jless x y = False"

text \<open>The test \<open>!x\<close> on a number: true for \<open>NaN\<close> and for zero.\<close>

fun jfalsy :: "jsnum \<Rightarrow> bool" where
  "jfalsy NaN = True"
| "jfalsy (Fin a) = (a = 0)"
| "jfalsy x = False"

subsection \<open>\<open>parseInt\<close> and \<open>String\<close>\<close>

text \<open>
  \<open>parseInt(s)\<close> with no radix: leading white space is skipped, one sign is read, a
  \<open>0x\<close>/\<open>0X\<close> prefix selects radix 16, and the longest prefix of digits is the value;
  no digit at all gives \<open>NaN\<close> (here \<open>None\<close>).  Strings are byte strings: the white
  space outside ASCII is not represented.
\<close>

definition isWhiteSpace :: "char \<Rightarrow> bool" where
  "isWhiteSpace c = (c \<in> set [CHR 0x09, CHR 0x0A, CHR 0x0B, CHR 0x0C, CHR 0x0D, CHR 0x20])"

definition digitValue :: "nat \<Rightarrow> char \<Rightarrow> nat option" where
  "digitValue radix c =
     (let k = (of_char c :: nat);
          d = (if 48 \<le> k \<and> k \<le> 57 then Some (k - 48)
               else if 97 \<le> k \<and> k \<le> 122 then Some (k - 87)
               else if 65 \<le> k \<and> k \<le> 90 then Some (k - 55)
               else None)
      in case d of None \<Rightarrow> None | Some v \<Rightarrow> if v < radix then Some v else None)"

fun leadingDigits :: "nat \<Rightarrow> string \<Rightarrow> nat list" where
  "leadingDigits radix [] = []"
| "leadingDigits radix (c # cs) =
     (case digitValue radix c of None \<Rightarrow> [] | Some d \<Rightarrow> d # leadingDigits radix cs)"

definition digitsValue :: "nat \<Rightarrow> nat list \<Rightarrow> nat" where
  "digitsValue radix ds = foldl (\<lambda>acc d. acc * radix + d) 0 ds"

definition parseInt :: "string \<Rightarrow> int option" where
  "parseInt str =
     (let s = dropWhile isWhiteSpace str;
          neg = (take 1 s = ''-'');
          s1 = (if take 1 s = ''-'' \<or> take 1 s = ''+'' then drop 1 s else s);
          hex = (take 2 s1 = ''0x'' \<or> take 2 s1 = ''0X'');
          radix = (if hex then 16 else 10);
          z = leadingDigits radix (if hex then drop 2 s1 else s1)
      in if z = [] then None
         else Some ((if neg then - 1 else 1) * int (digitsValue radix z)))"

definition parseInt_js :: "string \<Rightarrow> jsnum" where
  "parseInt_js str = (case parseInt str of None \<Rightarrow> NaN | Some n \<Rightarrow> fl (real_of_int n))"

text \<open>\<open>String(n)\<close> of a non-negative integer, and of an integer.\<close>

fun String_of_nat :: "nat \<Rightarrow> string" where
  "String_of_nat n =
     (if n < 10 then [''0123456789'' ! n]
      else String_of_nat (n div 10) @ [''0123456789'' ! (n mod 10)])"

definition String_of_int :: "int \<Rightarrow> string" where
  "String_of_int i = (if i < 0 then ''-'' @ String_of_nat (nat (- i)) else String_of_nat (nat i))"

section \<open>audio-config.js\<close>


definition NOTE_FREQUENCIES :: "real list" where
  "NOTE_FREQUENCIES =
     [261.63, 277.18, 293.66, 311.13, 329.63, 349.23, 369.99, 392.00,
      415.30, 440.00, 466.16, 493.88, 523.25, 554.37, 587.33, 622.25,
      659.25, 698.46, 739.99]"




section \<open>The oscillator: frequency of a note\<close>

text \<open>
  \<open>Oscillator.getFrequencyForNote\<close>.  The first argument is
  \<open>window.AudioConfig.NOTE_FREQUENCIES\<close> when the configuration is loaded, \<open>None\<close>
  otherwise; \<open>currentPitch\<close> and \<open>otype\<close> are the oscillator's pitch mode and waveform
  (\<open>this.options.type\<close>).  The function's \<open>catch\<close> branch (result 440) is not reachable
  for a string argument: none of the operations in the \<open>try\<close> block raises.
\<close>

definition pitch_shift :: "string \<Rightarrow> jsnum \<Rightarrow> jsnum" where
  "pitch_shift currentPitch f =
     (if currentPitch = ''low'' then jmul f (Fin 0.5)
      else if currentPitch = ''high'' then jmul f (Fin 2)
      else f)"

definition semitone_up :: "string \<Rightarrow> jsnum \<Rightarrow> jsnum" where
  "semitone_up otype f =
     (if otype = ''sine'' \<or> otype = ''triangle''
      then jmul f (jpow2 (jdiv_const (Fin 1) 12)) else f)"

definition getFrequencyForNote :: "real list option \<Rightarrow> string \<Rightarrow> string \<Rightarrow> string \<Rightarrow> jsnum" where
  "getFrequencyForNote cfg currentPitch otype noteName =
     (let noteIndex = jsub_const (parseInt_js noteName) 1;
          in_table = (case cfg of
                        None \<Rightarrow> None
                      | Some frequencies \<Rightarrow>
                          (case noteIndex of
                             Fin i \<Rightarrow> if jge_const noteIndex 0
                                         \<and> jlt_const noteIndex (real (length frequencies))
                                      then Some (frequencies ! nat \<lfloor>i\<rfloor>) else None
                           | _ \<Rightarrow> None))
      in case in_table of
           Some f \<Rightarrow> semitone_up otype (pitch_shift currentPitch (Fin f))
         | None \<Rightarrow>
             semitone_up otype
               (jmul (pitch_shift currentPitch (Fin 261.63)) (jpow2 (jdiv_const noteIndex 12))))"

section \<open>JavaScript \<open>Map\<close>s\<close>

text \<open>
  A \<open>Map\<close> keeps its entries in insertion order.  It is a list of key-value pairs:
  \<open>get\<close> is \<^const>\<open>map_of\<close>, \<open>set\<close> is \<^const>\<open>AList.update\<close> (an existing key keeps its
  place, a new key goes last), \<open>delete\<close> is \<^const>\<open>AList.delete\<close>, \<open>size\<close> is the length
  and \<open>clear\<close> gives the empty list.
\<close>

type_synonym ('k, 'v) js_map = "('k \<times> 'v) list"

section \<open>The Web Audio and timer calls the code makes\<close>

text \<open>
  Audio nodes and audio elements are numbered as they are created.  Every call the code
  makes on the platform is appended to a trace; callbacks handed to the platform
  (\<open>onended\<close>, \<open>setTimeout\<close>) are also kept in a list of pending callbacks, each of which
  may run later, once.
\<close>

type_synonym node = nat

datatype gain_value = Const real | CurrentValue

datatype callback =
    OscCleanupSource string
  | StopSustainedNodes node node
  | PlayerCleanupSource string
  | HtmlCleanup node string

datatype api_call =
    CreateOscillator node
  | CreateGain node
  | Connect node node
  | ConnectDestination node
  | SetFrequency node jsnum
  | SetType node string
  | SetValueAtTime node gain_value real
  | LinearRampToValueAtTime node real real
  | ExponentialRampToValueAtTime node real real
  | CancelScheduledValues node real
  | Start node real
  | Stop node real
  | Disconnect node
  | OnEnded node callback
  | SetTimeout real callback
  | NewAudio node string
  | SetVolume node real
  | Play node
  | Pause node

text \<open>
  The calls that raise, as the Web Audio and HTML specifications say: assigning a
  frequency that is not a finite single-precision value, the waveform \<open>custom\<close>, a
  negative time, an exponential ramp to 0, an element volume outside \<open>[0, 1]\<close>.
\<close>

fun throws :: "api_call \<Rightarrow> bool" where
  "throws (SetFrequency n f) = (case f of Fin a \<Rightarrow> 2 ^ 128 \<le> \<bar>a\<bar> | _ \<Rightarrow> True)"
| "throws (SetType n ty) = (ty = ''custom'')"
| "throws (SetValueAtTime n v t) = (t < 0)"
| "throws (LinearRampToValueAtTime n v t) = (t < 0)"
| "throws (ExponentialRampToValueAtTime n v t) = (v = 0 \<or> t < 0)"
| "throws (CancelScheduledValues n t) = (t < 0)"
| "throws (Start n t) = (t < 0)"
| "throws (Stop n t) = (t < 0)"
| "throws (SetVolume n v) = (v < 0 \<or> 1 < v)"
| "throws c = False"

text \<open>
  A straight-line block of calls inside \<open>try\<close>: the calls are made in order until one
  raises.  \<open>Inr\<close> is the trace when none raised, \<open>Inl\<close> the trace at the exception.
\<close>

fun perform :: "api_call list \<Rightarrow> api_call list \<Rightarrow> api_call list + api_call list" where
  "perform [] tr = Inr tr"
| "perform (c # cs) tr = (if throws c then Inl tr else perform cs (tr @ [c]))"

record webaudio =
  calls :: "api_call list"
  fresh :: node
  pending :: "callback list"

text \<open>
  What one synchronous call reads from its environment: \<open>Date.now()\<close> (milliseconds),
  \<open>audioContext.currentTime\<close> (seconds) and the suffix drawn from \<open>Math.random()\<close>.
\<close>

record env =
  dateNow :: int
  currentTime :: real
  rnd :: string

section \<open>The oscillator engine\<close>

record osc_options =
  otype :: string
  volume :: real
  duration :: real
  attack :: real
  decay :: real
  sustain :: real
  release :: real

text \<open>An options object as a caller passes it: every property may be missing.\<close>

record custom_options =
  c_type :: "string option"
  c_volume :: "real option"
  c_duration :: "real option"
  c_attack :: "real option"
  c_decay :: "real option"
  c_sustain :: "real option"
  c_release :: "real option"
  c_sustainMode :: "bool option"
  c_pitch :: "string option"

definition no_options :: custom_options where
  "no_options = \<lparr>c_type = None, c_volume = None, c_duration = None, c_attack = None,
     c_decay = None, c_sustain = None, c_release = None, c_sustainMode = None, c_pitch = None\<rparr>"

record osc_source =
  os_oscillator :: node
  os_gainNode :: node
  os_noteName :: string
  os_startTime :: real

record sustained =
  su_id :: string
  su_oscillator :: node
  su_gainNode :: node

record oscillator =
  options :: osc_options
  o_activeSources :: "(string, osc_source) js_map"
  sustainMode :: bool
  activeSustainedNotes :: "(string, sustained) js_map"
  currentPitch :: string

text \<open>\<open>x || d\<close> on an optional number and on an optional string.\<close>

definition num_or :: "real option \<Rightarrow> real \<Rightarrow> real" where
  "num_or x d = (case x of None \<Rightarrow> d | Some v \<Rightarrow> if v = 0 then d else v)"

definition str_or :: "string option \<Rightarrow> string \<Rightarrow> string" where
  "str_or x d = (case x of None \<Rightarrow> d | Some v \<Rightarrow> if v = [] then d else v)"

definition clamp01 :: "real \<Rightarrow> real" where
  "clamp01 v = max 0 (min 1 v)"

text \<open>The constructor \<open>new Oscillator(audioContext, options)\<close>.\<close>

definition new_Oscillator :: "custom_options \<Rightarrow> oscillator" where
  "new_Oscillator opts =
     \<lparr>options =
        \<lparr>otype = str_or (c_type opts) ''sine'',
         volume = clamp01 (num_or (c_volume opts) 0.3),
         duration = max 0.1 (num_or (c_duration opts) 0.5),
         attack = max 0 (num_or (c_attack opts) 0.01),
         decay = max 0 (num_or (c_decay opts) 0.1),
         sustain = clamp01 (num_or (c_sustain opts) 0.3),
         release = max 0 (num_or (c_release opts) 0.5)\<rparr>,
      o_activeSources = [],
      sustainMode = (c_sustainMode opts = Some True),
      activeSustainedNotes = [],
      currentPitch = str_or (c_pitch opts) ''medium''\<rparr>"

text \<open>\<open>{ ...this.options, ...customOptions }\<close>.\<close>

definition merge_options :: "osc_options \<Rightarrow> custom_options \<Rightarrow> osc_options" where
  "merge_options d c =
     \<lparr>otype = (case c_type c of None \<Rightarrow> otype d | Some v \<Rightarrow> v),
      volume = (case c_volume c of None \<Rightarrow> volume d | Some v \<Rightarrow> v),
      duration = (case c_duration c of None \<Rightarrow> duration d | Some v \<Rightarrow> v),
      attack = (case c_attack c of None \<Rightarrow> attack d | Some v \<Rightarrow> v),
      decay = (case c_decay c of None \<Rightarrow> decay d | Some v \<Rightarrow> v),
      sustain = (case c_sustain c of None \<Rightarrow> sustain d | Some v \<Rightarrow> v),
      release = (case c_release c of None \<Rightarrow> release d | Some v \<Rightarrow> v)\<rparr>"

text \<open>\<open>setVolume\<close>, \<open>setDuration\<close>, \<open>setPitch\<close>.\<close>

definition Oscillator_setVolume :: "real \<Rightarrow> oscillator \<Rightarrow> oscillator" where
  "Oscillator_setVolume v osc = osc\<lparr>options := (options osc)\<lparr>volume := clamp01 v\<rparr>\<rparr>"

definition Oscillator_setDuration :: "real \<Rightarrow> oscillator \<Rightarrow> oscillator" where
  "Oscillator_setDuration d osc = osc\<lparr>options := (options osc)\<lparr>duration := max 0.1 d\<rparr>\<rparr>"

definition Oscillator_setPitch :: "string \<Rightarrow> oscillator \<Rightarrow> oscillator" where
  "Oscillator_setPitch p osc = osc\<lparr>currentPitch := p\<rparr>"

text \<open>
  \<open>applyADSREnvelope(gainParam, peakVolume, options)\<close>: the calls it makes on the gain
  parameter of node \<open>g\<close>, in order; \<open>now\<close> is \<open>audioContext.currentTime\<close>.
\<close>

definition applyADSREnvelope :: "node \<Rightarrow> real \<Rightarrow> osc_options \<Rightarrow> real \<Rightarrow> api_call list" where
  "applyADSREnvelope g peakVolume opts now =
     [SetValueAtTime g (Const 0) now,
      LinearRampToValueAtTime g peakVolume (now + attack opts),
      ExponentialRampToValueAtTime g (peakVolume * sustain opts) (now + attack opts + decay opts),
      SetValueAtTime g (Const (peakVolume * sustain opts)) (now + duration opts - release opts),
      ExponentialRampToValueAtTime g 0.001 (now + duration opts)]"

text \<open>
  \<open>playSustainedNote(noteName, velocity, options)\<close>.  The result is the returned source
  id (\<open>None\<close> for \<open>null\<close>), the oscillator object and the audio context afterwards.
\<close>

definition playSustainedNote ::
  "real list option \<Rightarrow> env \<Rightarrow> string \<Rightarrow> real \<Rightarrow> osc_options \<Rightarrow> oscillator \<times> webaudio
     \<Rightarrow> string option \<times> oscillator \<times> webaudio" where
  "playSustainedNote cfg e noteName velocity opts = (\<lambda>(osc, ctx).
     case map_of (activeSustainedNotes osc) noteName of
       Some info \<Rightarrow> (Some (su_id info), osc, ctx)
     | None \<Rightarrow>
        (let frequency = getFrequencyForNote cfg (currentPitch osc) (otype (options osc)) noteName
         in if jfalsy frequency then (None, osc, ctx)
            else
              let on = fresh ctx; g = fresh ctx + 1; now = currentTime e
              in case perform
                        [CreateOscillator on, CreateGain g, Connect on g, ConnectDestination g,
                         SetFrequency on frequency, SetType on (otype opts),
                         SetValueAtTime g (Const (velocity * volume opts)) now,
                         Start on now]
                        (calls ctx) of
                   Inl tr \<Rightarrow> (None, osc, ctx\<lparr>calls := tr, fresh := fresh ctx + 2\<rparr>)
                 | Inr tr \<Rightarrow>
                     let sourceId = ''sustain_'' @ noteName @ ''_'' @ String_of_int (dateNow e)
                     in (Some sourceId,
                         osc\<lparr>activeSustainedNotes :=
                               AList.update noteName
                                 \<lparr>su_id = sourceId, su_oscillator = on, su_gainNode = g\<rparr>
                                 (activeSustainedNotes osc)\<rparr>,
                         ctx\<lparr>calls := tr, fresh := fresh ctx + 2\<rparr>)))"

text \<open>\<open>Oscillator.playNote(noteName, velocity, customOptions)\<close>.\<close>

definition Oscillator_playNote ::
  "real list option \<Rightarrow> env \<Rightarrow> string \<Rightarrow> real \<Rightarrow> custom_options \<Rightarrow> oscillator \<times> webaudio
     \<Rightarrow> string option \<times> oscillator \<times> webaudio" where
  "Oscillator_playNote cfg e noteName velocity custom = (\<lambda>(osc, ctx).
     let opts = merge_options (options osc) custom
     in if c_sustainMode custom = Some True \<or> sustainMode osc
        then playSustainedNote cfg e noteName velocity opts (osc, ctx)
        else
          let frequency = getFrequencyForNote cfg (currentPitch osc) (otype (options osc)) noteName
          in if jfalsy frequency then (None, osc, ctx)
             else
               let on = fresh ctx; g = fresh ctx + 1; now = currentTime e
               in case perform
                         ([CreateOscillator on, CreateGain g, Connect on g, ConnectDestination g,
                           SetFrequency on frequency, SetType on (otype opts)]
                          @ applyADSREnvelope g (velocity * volume opts) opts now
                          @ [Start on now, Stop on (now + duration opts)])
                         (calls ctx) of
                    Inl tr \<Rightarrow> (None, osc, ctx\<lparr>calls := tr, fresh := fresh ctx + 2\<rparr>)
                  | Inr tr \<Rightarrow>
                      let sourceId = ''osc_'' @ noteName @ ''_'' @ String_of_int (dateNow e)
                                     @ ''_'' @ rnd e
                      in (Some sourceId,
                          osc\<lparr>o_activeSources :=
                                AList.update sourceId
                                  \<lparr>os_oscillator = on, os_gainNode = g, os_noteName = noteName,
                                   os_startTime = now\<rparr>
                                  (o_activeSources osc)\<rparr>,
                          ctx\<lparr>calls := tr @ [OnEnded on (OscCleanupSource sourceId)],
                              fresh := fresh ctx + 2,
                              pending := pending ctx @ [OscCleanupSource sourceId]\<rparr>))"

text \<open>
  \<open>stopSustainedNote(noteName)\<close>.  When a call of the \<open>try\<close> block raises, the \<open>catch\<close>
  only reports it and the entry stays in the table.
\<close>

definition stopSustainedNote :: "env \<Rightarrow> string \<Rightarrow> oscillator \<times> webaudio \<Rightarrow> oscillator \<times> webaudio" where
  "stopSustainedNote e noteName = (\<lambda>(osc, ctx).
     case map_of (activeSustainedNotes osc) noteName of
       None \<Rightarrow> (osc, ctx)
     | Some info \<Rightarrow>
        (let releaseTime = duration (options osc); now = currentTime e;
             g = su_gainNode info; on = su_oscillator info
         in case perform
                   [CancelScheduledValues g now,
                    SetValueAtTime g CurrentValue now,
                    ExponentialRampToValueAtTime g 0.001 (now + releaseTime),
                    SetTimeout (releaseTime * 1000) (StopSustainedNodes on g)]
                   (calls ctx) of
              Inl tr \<Rightarrow> (osc, ctx\<lparr>calls := tr\<rparr>)
            | Inr tr \<Rightarrow>
                (osc\<lparr>activeSustainedNotes := AList.delete noteName (activeSustainedNotes osc)\<rparr>,
                 ctx\<lparr>calls := tr, pending := pending ctx @ [StopSustainedNodes on g]\<rparr>)))"

text \<open>\<open>stopAllSustainedNotes()\<close>: every key is stopped, then the table is cleared.\<close>

definition stopAllSustainedNotes :: "env \<Rightarrow> oscillator \<times> webaudio \<Rightarrow> oscillator \<times> webaudio" where
  "stopAllSustainedNotes e = (\<lambda>(osc, ctx).
     let (osc', ctx') = fold (stopSustainedNote e) (map fst (activeSustainedNotes osc)) (osc, ctx)
     in (osc'\<lparr>activeSustainedNotes := []\<rparr>, ctx'))"

text \<open>
  \<open>Oscillator.cleanupSource(sourceId)\<close>: exceptions of the node calls are swallowed, the
  entry is deleted in every case.
\<close>

definition Oscillator_cleanupSource :: "env \<Rightarrow> string \<Rightarrow> oscillator \<times> webaudio \<Rightarrow> oscillator \<times> webaudio" where
  "Oscillator_cleanupSource e sourceId = (\<lambda>(osc, ctx).
     case map_of (o_activeSources osc) sourceId of
       None \<Rightarrow> (osc, ctx)
     | Some info \<Rightarrow>
         let g = os_gainNode info; on = os_oscillator info; now = currentTime e
         in (osc\<lparr>o_activeSources := AList.delete sourceId (o_activeSources osc)\<rparr>,
             ctx\<lparr>calls := calls ctx
                   @ [CancelScheduledValues g now, SetValueAtTime g (Const 0) now,
                      Disconnect g, Stop on 0, Disconnect on]\<rparr>))"

text \<open>
  The calls a client can make on an oscillator object, for statements about every
  sequence of calls.  \<open>OSetSustainMode\<close> is the assignment \<open>oscillator.sustainMode = b\<close>
  made by the control panel, \<open>OCleanupSource\<close> the \<open>onended\<close> callback.
\<close>

datatype osc_event =
    OPlayNote env string real custom_options
  | OPlaySustainedNote env string real osc_options
  | OStopSustainedNote env string
  | OStopAllSustainedNotes env
  | OCleanupSource env string
  | OSetVolume real
  | OSetDuration real
  | OSetPitch string
  | OSetSustainMode bool

fun osc_step :: "real list option \<Rightarrow> osc_event \<Rightarrow> oscillator \<times> webaudio \<Rightarrow> oscillator \<times> webaudio" where
  "osc_step cfg (OPlayNote e n v c) st = snd (Oscillator_playNote cfg e n v c st)"
| "osc_step cfg (OPlaySustainedNote e n v opts) st = snd (playSustainedNote cfg e n v opts st)"
| "osc_step cfg (OStopSustainedNote e n) st = stopSustainedNote e n st"
| "osc_step cfg (OStopAllSustainedNotes e) st = stopAllSustainedNotes e st"
| "osc_step cfg (OCleanupSource e sid) st = Oscillator_cleanupSource e sid st"
| "osc_step cfg (OSetVolume v) (osc, ctx) = (Oscillator_setVolume v osc, ctx)"
| "osc_step cfg (OSetDuration d) (osc, ctx) = (Oscillator_setDuration d osc, ctx)"
| "osc_step cfg (OSetPitch p) (osc, ctx) = (Oscillator_setPitch p osc, ctx)"
| "osc_step cfg (OSetSustainMode b) (osc, ctx) = (osc\<lparr>sustainMode := b\<rparr>, ctx)"

definition osc_run ::
  "real list option \<Rightarrow> osc_event list \<Rightarrow> oscillator \<times> webaudio \<Rightarrow> oscillator \<times> webaudio" where
  "osc_run cfg evs st = fold (osc_step cfg) evs st"

definition empty_context :: webaudio where
  "empty_context = \<lparr>calls = [], fresh = 0, pending = []\<rparr>"

text \<open>
  Two abbreviations used in the statements below: the factor of the pitch mode and the
  factor of the waveform's semitone correction.
\<close>

definition pitch_factor :: "string \<Rightarrow> real" where
  "pitch_factor p = (if p = ''low'' then 0.5 else if p = ''high'' then 2 else 1)"

definition semitone_factor :: "string \<Rightarrow> real" where
  "semitone_factor t = (if t = ''sine'' \<or> t = ''triangle'' then 2 powr (1 / 12) else 1)"


text \<open>Whether the parsed note number \<open>n\<close> indexes the frequency table.\<close>

definition in_table :: "real list option \<Rightarrow> int \<Rightarrow> bool" where
  "in_table cfg n = (case cfg of None \<Rightarrow> False | Some tbl \<Rightarrow> 1 \<le> n \<and> n \<le> int (length tbl))"

text \<open>
  What the constructor establishes and every operation keeps: the table of sustained notes
  has one entry per key, and the duration is at least 0.1 seconds.
\<close>

definition osc_inv :: "oscillator \<Rightarrow> bool" where
  "osc_inv osc = (distinct (map fst (activeSustainedNotes osc)) \<and> 1 / 10 \<le> duration (options osc))"

section \<open>The audio player and its registry of active sources\<close>

text \<open>
  An entry of \<open>activeSources\<close>: the playing source (an \<open>Audio\<close> element or a buffer
  source node), the gain node when there is one, the note and the start time.  The field
  \<open>type\<close> of the source (\<open>htmlAudio\<close> or \<open>webAudio\<close>) is the constructor of the handle.
\<close>

datatype source_handle = HtmlAudioElement node | BufferSourceNode node

record source_info =
  si_source :: source_handle
  si_gainNode :: "node option"
  si_noteName :: string
  si_startTime :: real

type_synonym registry = "(string, source_info) js_map"

text \<open>
  \<open>cleanupSource(sourceId)\<close>, the same in \<open>AudioPlayer\<close> and in the \<open>AudioManager\<close> of
  \<open>audio.js\<close>.  An \<open>Audio\<close> element has neither \<open>stop\<close> nor \<open>disconnect\<close>.  An exception
  of a node call is caught; it can only skip later node calls, the entry is deleted in
  every case.
\<close>

definition cleanupSource :: "env \<Rightarrow> string \<Rightarrow> registry \<times> webaudio \<Rightarrow> registry \<times> webaudio" where
  "cleanupSource e sourceId = (\<lambda>(reg, ctx).
     case map_of reg sourceId of
       None \<Rightarrow> (reg, ctx)
     | Some info \<Rightarrow>
        (let now = currentTime e;
             gain_calls = (case si_gainNode info of
                             None \<Rightarrow> []
                           | Some g \<Rightarrow> [CancelScheduledValues g now,
                                        SetValueAtTime g (Const 0) now, Disconnect g]);
             source_calls = (case si_source info of
                               HtmlAudioElement el \<Rightarrow> []
                             | BufferSourceNode n \<Rightarrow> [Stop n 0, Disconnect n])
         in (AList.delete sourceId reg,
             ctx\<lparr>calls := calls ctx @ gain_calls @ source_calls\<rparr>)))"

text \<open>
  \<open>stopNote(noteName)\<close>: the ids of the note's entries are collected first; then an
  entry with a gain node is faded and cleaned up by a timer 25 ms later (at once when
  scheduling the fade raises), an entry without one is cleaned up at once.
\<close>

definition stopSource :: "env \<Rightarrow> string \<Rightarrow> registry \<times> webaudio \<Rightarrow> registry \<times> webaudio" where
  "stopSource e sourceId = (\<lambda>(reg, ctx).
     case map_of reg sourceId of
       None \<Rightarrow> cleanupSource e sourceId (reg, ctx)
     | Some info \<Rightarrow>
        (case si_gainNode info of
           None \<Rightarrow> cleanupSource e sourceId (reg, ctx)
         | Some g \<Rightarrow>
            (case perform
                    [ExponentialRampToValueAtTime g 0.001 (currentTime e + 0.02),
                     LinearRampToValueAtTime g 0.001 (currentTime e + 0.03),
                     SetTimeout 25 (PlayerCleanupSource sourceId)]
                    (calls ctx) of
               Inr tr \<Rightarrow> (reg, ctx\<lparr>calls := tr,
                                   pending := pending ctx @ [PlayerCleanupSource sourceId]\<rparr>)
             | Inl tr \<Rightarrow> cleanupSource e sourceId (reg, ctx\<lparr>calls := tr\<rparr>))))"











section \<open>The playback controller\<close>











text \<open>
  Properties of a registry used below: its keys are distinct; and, for the registry of
  the player, every id is a non-empty string and no entry has a gain node (the only
  function that adds entries to it is \<open>playNoteWithAudioFile\<close>).
\<close>

definition plain_entry :: "string \<times> source_info \<Rightarrow> bool" where
  "plain_entry = (\<lambda>(sid, info). sid \<noteq> [] \<and> si_gainNode info = None)"











section \<open>Verification\<close>

subsection \<open>Numbers and frequencies\<close>

lemma fl_mid: "1 / 8 \<le> x \<Longrightarrow> x \<le> 10 ^ 6 \<Longrightarrow> fl x = Fin x"
proof -
  assume a: "1 / 8 \<le> x" and b: "x \<le> 10 ^ 6"
  have "(10::real) ^ 6 < 2 ^ 1024" by simp
  with b have "x < 2 ^ 1024" by linarith
  moreover have "(1::real) / 2 ^ 1075 \<le> 1 / 8" by simp
  with a have "1 / 2 ^ 1075 \<le> \<bar>x\<bar>" by linarith
  moreover from a have "\<not> x \<le> - (2 ^ 1024)" by simp
  ultimately show ?thesis by (simp add: fl_def)
qed

lemma fl_zero: "fl 0 = Fin 0"
  by (simp add: fl_def)

lemma semitone_bounds: "1 \<le> (2::real) powr (1 / 12)" "(2::real) powr (1 / 12) \<le> 2"
proof -
  show "1 \<le> (2::real) powr (1 / 12)" by (simp add: ge_one_powr_ge_zero)
  have "(2::real) powr (1 / 12) \<le> 2 powr 1" by (rule powr_mono) simp_all
  then show "(2::real) powr (1 / 12) \<le> 2" by simp
qed

lemma semitone_val: "jpow2 (jdiv_const (Fin 1) 12) = Fin (2 powr (1 / 12))"
proof -
  have "fl (1 / 12) = Fin (1 / 12)" by (simp add: fl_def)
  moreover have "fl (2 powr (1 / 12)) = Fin (2 powr (1 / 12))"
    using semitone_bounds by (intro fl_mid) simp_all
  ultimately show ?thesis by simp
qed


lemma pitch_factor_bounds: "1 / 2 \<le> pitch_factor p" "pitch_factor p \<le> 2"
  by (simp_all add: pitch_factor_def)

lemma semitone_factor_bounds: "1 \<le> semitone_factor t" "semitone_factor t \<le> 2"
  using semitone_bounds by (simp_all add: semitone_factor_def)

lemma pitch_shift_Fin: "1 \<le> f \<Longrightarrow> f \<le> 10 ^ 4 \<Longrightarrow> pitch_shift p (Fin f) = Fin (f * pitch_factor p)"
  by (simp add: pitch_shift_def pitch_factor_def fl_mid)

lemma semitone_up_Fin: "1 / 2 \<le> f \<Longrightarrow> f \<le> 10 ^ 5 \<Longrightarrow> semitone_up t (Fin f) = Fin (f * semitone_factor t)"
proof -
  assume a: "1 / 2 \<le> f" and b: "f \<le> 10 ^ 5"
  have s: "1 \<le> (2::real) powr (1 / 12)" "(2::real) powr (1 / 12) \<le> 2" by (rule semitone_bounds)+
  have "f * 1 \<le> f * 2 powr (1 / 12)" using a s by (intro mult_left_mono) simp_all
  then have lo: "1 / 8 \<le> f * 2 powr (1 / 12)" using a by linarith
  have "f * 2 powr (1 / 12) \<le> 10 ^ 5 * 2" using a b s by (intro mult_mono) simp_all
  then have hi: "f * 2 powr (1 / 12) \<le> 10 ^ 6" by simp
  show ?thesis
    unfolding semitone_up_def semitone_val
    by (simp add: semitone_factor_def fl_mid [OF lo hi])
qed


lemma parse_small:
  "list_all (\<lambda>n. parseInt (String_of_nat n) = Some (int n)) [1..<20]"
  by code_simp

lemma freq_bounds: "list_all (\<lambda>f. 1 \<le> f \<and> f \<le> 1000) NOTE_FREQUENCIES"
  by (simp add: NOTE_FREQUENCIES_def)

lemma freq_sorted: "sorted_wrt (<) NOTE_FREQUENCIES"
  by (simp add: NOTE_FREQUENCIES_def)


lemma fl_range: "0 \<le> x \<Longrightarrow> x < 2 ^ 1024 \<Longrightarrow> x = 0 \<or> 1 / 8 \<le> x \<Longrightarrow> fl x = Fin x"
proof -
  assume a: "0 \<le> x" and b: "x < 2 ^ 1024" and c: "x = 0 \<or> 1 / 8 \<le> x"
  have t: "(1::real) / 2 ^ 1075 \<le> 1 / 8" by simp
  from c show ?thesis
  proof
    assume "x = 0" then show ?thesis by (simp add: fl_def)
  next
    assume "1 / 8 \<le> x"
    with t have "1 / 2 ^ 1075 \<le> \<bar>x\<bar>" by linarith
    with a b show ?thesis by (simp add: fl_def)
  qed
qed

lemma noteIndex_small:
  assumes "parseInt s = Some (int n)" "1 \<le> n" "n \<le> 1000"
  shows "jsub_const (parseInt_js s) 1 = Fin (real n - 1)"
proof -
  have "fl (real n) = Fin (real n)" using assms by (intro fl_mid) simp_all
  moreover have "fl (real n - 1) = Fin (real n - 1)"
  proof (cases "n = 1")
    case True then show ?thesis by (simp add: fl_zero)
  next
    case False
    with assms have "1 \<le> real n - 1" by simp
    then show ?thesis using assms by (intro fl_mid) simp_all
  qed
  ultimately show ?thesis using assms by (simp add: parseInt_js_def)
qed

lemma getFrequency_table:
  assumes "parseInt s = Some (int n)" "1 \<le> n" "n \<le> length tbl" "n \<le> 1000"
  shows "getFrequencyForNote (Some tbl) p t s = semitone_up t (pitch_shift p (Fin (tbl ! (n - 1))))"
proof -
  have "nat \<lfloor>real n - 1\<rfloor> = n - 1"
    using assms by (simp add: of_nat_diff [symmetric] del: of_nat_diff)
  moreover have "real n - 1 < real (length tbl)" using assms by simp
  moreover have "0 \<le> real n - 1" using assms by simp
  ultimately show ?thesis
    using noteIndex_small [OF assms(1,2,4)]
    by (simp add: getFrequencyForNote_def Let_def)
qed

lemma table_value:
  assumes "1 \<le> f" "f \<le> 1000"
  shows "semitone_up t (pitch_shift p (Fin f)) = Fin (f * pitch_factor p * semitone_factor t)"
proof -
  have "pitch_shift p (Fin f) = Fin (f * pitch_factor p)"
    using assms by (intro pitch_shift_Fin) simp_all
  moreover have "1 / 2 \<le> f * pitch_factor p"
    using assms pitch_factor_bounds [of p] by (simp add: pitch_factor_def)
  moreover have "f * pitch_factor p \<le> 10 ^ 5"
    using assms by (simp add: pitch_factor_def)
  ultimately show ?thesis by (simp add: semitone_up_Fin)
qed

lemma getFrequency_table_value:
  assumes "parseInt s = Some (int n)" "1 \<le> n" "n \<le> 19"
  shows "getFrequencyForNote (Some NOTE_FREQUENCIES) p t s
           = Fin (NOTE_FREQUENCIES ! (n - 1) * pitch_factor p * semitone_factor t)"
proof -
  have len: "length NOTE_FREQUENCIES = 19" by (simp add: NOTE_FREQUENCIES_def)
  have "n - 1 < length NOTE_FREQUENCIES" using assms len by simp
  then have "1 \<le> NOTE_FREQUENCIES ! (n - 1) \<and> NOTE_FREQUENCIES ! (n - 1) \<le> 1000"
    using freq_bounds by (simp add: list_all_length)
  then show ?thesis
    using getFrequency_table [of s n NOTE_FREQUENCIES p t] assms len
    by (simp add: table_value)
qed

lemma pow_range:
  assumes "0 \<le> y" "y \<le> 1000"
  shows "fl (2 powr y) = Fin (2 powr y)" "1 \<le> (2::real) powr y" "(2::real) powr y \<le> 2 ^ 1000"
proof -
  show lo: "1 \<le> (2::real) powr y" using assms by (simp add: ge_one_powr_ge_zero)
  have "(2::real) powr y \<le> 2 powr 1000" using assms by (intro powr_mono) simp_all
  also have "(2::real) powr 1000 = 2 ^ 1000" by (simp add: powr_numeral)
  finally show hi: "(2::real) powr y \<le> 2 ^ 1000" .
  have "(2::real) ^ 1000 < 2 ^ 1024" by simp
  with hi have "(2::real) powr y < 2 ^ 1024" by linarith
  with lo show "fl (2 powr y) = Fin (2 powr y)" by (intro fl_range) simp_all
qed

lemma parse_String_small:
  assumes "1 \<le> n" "n \<le> 19"
  shows "parseInt (String_of_nat n) = Some (int n)"
proof -
  from assms have "n \<in> set [1..<20]" by simp
  with parse_small show ?thesis unfolding list_all_iff by blast
qed












lemma fl_id: "1 / 2 ^ 1075 \<le> \<bar>x\<bar> \<Longrightarrow> \<bar>x\<bar> < 2 ^ 1024 \<Longrightarrow> fl x = Fin x"
  by (auto simp add: fl_def)

lemma pow2_bounds:
  assumes "- 1001 \<le> y" "y \<le> 1001"
  shows "1 / 2 ^ 1001 \<le> (2::real) powr y" "(2::real) powr y \<le> 2 ^ 1001"
proof -
  have "(2::real) powr (- 1001) \<le> 2 powr y" using assms by (intro powr_mono) simp_all
  moreover have p: "(2::real) powr 1001 = 2 ^ 1001" by (rule powr_numeral) simp
  moreover have "(2::real) powr (- 1001) = inverse (2 powr 1001)" by (rule powr_minus)
  ultimately show "1 / 2 ^ 1001 \<le> (2::real) powr y" by (simp only: inverse_eq_divide)
  have "(2::real) powr y \<le> 2 powr 1001" using assms by (intro powr_mono) simp_all
  with p show "(2::real) powr y \<le> 2 ^ 1001" by (simp only:)
qed

lemma fl_product:
  assumes "1 / 2 ^ 1001 \<le> w" "w \<le> 2 ^ 1001" "1 / 8 \<le> c" "c \<le> 2 ^ 12"
  shows "fl (c * w) = Fin (c * w)" "1 / 2 ^ 1004 \<le> c * w" "c * w \<le> 2 ^ 1013"
proof -
  have w0: "0 \<le> w" using assms(1) by (rule order_trans [rotated]) simp
  have "(1 / 8) * (1 / 2 ^ 1001) \<le> c * w" using assms by (intro mult_mono) simp_all
  then show lo: "1 / 2 ^ 1004 \<le> c * w" by simp
  have "c * w \<le> 2 ^ 12 * 2 ^ 1001" using assms w0 by (intro mult_mono) simp_all
  then show hi: "c * w \<le> 2 ^ 1013" by simp
  have c0: "0 \<le> c" using assms(3) by (rule order_trans [rotated]) simp
  have nn: "\<bar>c * w\<bar> = c * w" using c0 w0 by simp
  have "(1::real) / 2 ^ 1075 \<le> 1 / 2 ^ 1004" by simp
  with lo have "1 / 2 ^ 1075 \<le> c * w" by (rule order_trans [rotated])
  moreover have "(2::real) ^ 1013 < 2 ^ 1024" by simp
  with hi have "c * w < 2 ^ 1024" by (rule order_le_less_trans)
  ultimately show "fl (c * w) = Fin (c * w)" using nn by (intro fl_id) simp_all
qed

lemma noteIndex_mid:
  assumes "parseInt s = Some n" "- 12000 \<le> n" "n \<le> 12000"
  shows "jsub_const (parseInt_js s) 1 = Fin (real_of_int n - 1)"
proof -
  have b: "\<bar>real_of_int n\<bar> \<le> 12000" "\<bar>real_of_int n - 1\<bar> \<le> 12001" using assms by simp_all
  have t: "(1::real) / 2 ^ 1075 \<le> 1" "(12001::real) < 2 ^ 1024" by simp_all
  have "fl (real_of_int n) = Fin (real_of_int n)"
  proof (cases "n = 0")
    case True then show ?thesis by (simp add: fl_zero)
  next
    case False
    then have "1 \<le> \<bar>real_of_int n\<bar>" by linarith
    with b t show ?thesis by (intro fl_id) linarith+
  qed
  moreover have "fl (real_of_int n - 1) = Fin (real_of_int n - 1)"
  proof (cases "n = 1")
    case True then show ?thesis by (simp add: fl_zero)
  next
    case False
    then have "1 \<le> \<bar>real_of_int n - 1\<bar>" by linarith
    with b t show ?thesis by (intro fl_id) linarith+
  qed
  ultimately show ?thesis using assms by (simp add: parseInt_js_def)
qed

lemma jdiv_mid:
  assumes "\<bar>i\<bar> \<le> 12001" "i \<in> \<int>"
  shows "jdiv_const (Fin i) 12 = Fin (i / 12)"
proof (cases "i = 0")
  case True then show ?thesis by (simp add: fl_zero)
next
  case False
  with assms(2) have "1 \<le> \<bar>i\<bar>" by (auto elim!: Ints_cases)
  then have "1 / 12 \<le> \<bar>i / 12\<bar>" by simp
  moreover have "(1::real) / 2 ^ 1075 \<le> 1 / 12" by simp
  ultimately have lo: "1 / 2 ^ 1075 \<le> \<bar>i / 12\<bar>" by linarith
  have "\<bar>i / 12\<bar> \<le> 12001" using assms(1) by simp
  moreover have "(12001::real) < 2 ^ 1024" by simp
  ultimately have "\<bar>i / 12\<bar> < 2 ^ 1024" by linarith
  with lo show ?thesis by (simp add: fl_id)
qed

lemma semitone_up_wide:
  assumes "1 / 2 ^ 1004 \<le> f" "f \<le> 2 ^ 1013"
  shows "semitone_up t (Fin f) = Fin (f * semitone_factor t)"
proof -
  have s: "1 \<le> (2::real) powr (1 / 12)" "(2::real) powr (1 / 12) \<le> 2" by (rule semitone_bounds)+
  have f0: "0 \<le> f" using assms(1) by (rule order_trans [rotated]) simp
  have "f * 1 \<le> f * 2 powr (1 / 12)" using f0 s by (intro mult_left_mono) simp_all
  with assms have lo: "1 / 2 ^ 1004 \<le> f * 2 powr (1 / 12)" by linarith
  have "f * 2 powr (1 / 12) \<le> 2 ^ 1013 * 2" using assms f0 s by (intro mult_mono) simp_all
  then have hi: "f * 2 powr (1 / 12) \<le> 2 ^ 1014" by simp
  have nn: "\<bar>f * 2 powr (1 / 12)\<bar> = f * 2 powr (1 / 12)" using f0 by simp
  have "(1::real) / 2 ^ 1075 \<le> 1 / 2 ^ 1004" by simp
  with lo have "1 / 2 ^ 1075 \<le> f * 2 powr (1 / 12)" by (rule order_trans [rotated])
  moreover have "(2::real) ^ 1014 < 2 ^ 1024" by simp
  with hi have "f * 2 powr (1 / 12) < 2 ^ 1024" by (rule order_le_less_trans)
  ultimately have "fl (f * 2 powr (1 / 12)) = Fin (f * 2 powr (1 / 12))"
    using nn by (intro fl_id) simp_all
  then show ?thesis
    unfolding semitone_up_def semitone_val by (simp add: semitone_factor_def)
qed


lemma getFrequency_fallback:
  assumes "parseInt s = Some n" "- 12000 \<le> n" "n \<le> 12000" "\<not> in_table cfg n"
  shows "getFrequencyForNote cfg p t s
           = Fin (261.63 * pitch_factor p * 2 powr ((real_of_int n - 1) / 12) * semitone_factor t)"
proof -
  let ?i = "real_of_int n - 1"
  have idx: "jsub_const (parseInt_js s) 1 = Fin ?i" using assms by (intro noteIndex_mid)
  have ib: "\<bar>?i\<bar> \<le> 12001" using assms by simp
  have iz: "?i \<in> \<int>" by simp
  have dv: "jdiv_const (Fin ?i) 12 = Fin (?i / 12)" using ib iz by (rule jdiv_mid)
  have yb: "- 1001 \<le> ?i / 12" "?i / 12 \<le> 1001" using assms by simp_all
  note pb = pow2_bounds [OF yb]
  have pw: "fl (2 powr (?i / 12)) = Fin (2 powr (?i / 12))"
  proof -
    have nn: "\<bar>2 powr (?i / 12)\<bar> = 2 powr (?i / 12)" by simp
    have "(1::real) / 2 ^ 1075 \<le> 1 / 2 ^ 1001" by simp
    with pb(1) have "1 / 2 ^ 1075 \<le> 2 powr (?i / 12)" by (rule order_trans [rotated])
    moreover have "(2::real) ^ 1001 < 2 ^ 1024" by simp
    with pb(2) have "2 powr (?i / 12) < 2 ^ 1024" by (rule order_le_less_trans)
    ultimately show ?thesis using nn by (intro fl_id) simp_all
  qed
  have ps: "pitch_shift p (Fin 261.63) = Fin (261.63 * pitch_factor p)"
    by (intro pitch_shift_Fin) simp_all
  have cb: "1 / 8 \<le> 261.63 * pitch_factor p" "261.63 * pitch_factor p \<le> 2 ^ 12"
    by (simp_all add: pitch_factor_def)
  note pr = fl_product [OF pb cb]
  have nt: "(case cfg of None \<Rightarrow> None
             | Some frequencies \<Rightarrow>
                 (case Fin ?i of
                    Fin i \<Rightarrow> if jge_const (Fin ?i) 0 \<and> jlt_const (Fin ?i) (real (length frequencies))
                             then Some (frequencies ! nat \<lfloor>i\<rfloor>) else None
                  | _ \<Rightarrow> None)) = None"
  proof (cases cfg)
    case None then show ?thesis by simp
  next
    case (Some tbl)
    with assms(4) have "\<not> (1 \<le> n \<and> n \<le> int (length tbl))" by (simp add: in_table_def)
    then have "\<not> (0 \<le> ?i \<and> ?i < real (length tbl))" by auto
    with Some show ?thesis by simp
  qed
  show ?thesis
    unfolding getFrequencyForNote_def Let_def idx nt
    using dv pw ps pr(1) semitone_up_wide [OF pr(2,3), of t]
    by (simp add: mult.assoc)
qed


lemma freq_pos_factor: "0 < pitch_factor p * semitone_factor t"
  using pitch_factor_bounds(1) [of p] semitone_factor_bounds(1) [of t]
  by (intro mult_pos_pos) linarith+

text \<open>
  Claim C5.  Within one pitch mode and one waveform, \<open>getFrequencyForNote\<close> is strictly
  increasing over the note identifiers \<open>"1"\<close> to \<open>"19"\<close>: for \<open>1 \<le> m < n \<le> 19\<close> the
  frequency of note \<open>String(m)\<close> is less than the frequency of note \<open>String(n)\<close>.  This
  holds with the frequency table of the configuration and also on the fallback path
  taken when the configuration is not loaded.
\<close>

theorem getFrequencyForNote_strictly_increasing:
  assumes "1 \<le> m" "m < n" "n \<le> 19"
      and "cfg = Some NOTE_FREQUENCIES \<or> cfg = None"
  shows "jless (getFrequencyForNote cfg pitch ty (String_of_nat m))
               (getFrequencyForNote cfg pitch ty (String_of_nat n))"
proof -
  have pm: "parseInt (String_of_nat m) = Some (int m)" using assms by (intro parse_String_small) simp_all
  have pn: "parseInt (String_of_nat n) = Some (int n)" using assms by (intro parse_String_small) simp_all
  from assms(4) show ?thesis
  proof
    assume c: "cfg = Some NOTE_FREQUENCIES"
    have len: "length NOTE_FREQUENCIES = 19" by (simp add: NOTE_FREQUENCIES_def)
    have "m - 1 < n - 1" "n - 1 < length NOTE_FREQUENCIES" using assms len by simp_all
    then have "NOTE_FREQUENCIES ! (m - 1) < NOTE_FREQUENCIES ! (n - 1)"
      by (rule sorted_wrt_nth_less [OF freq_sorted])
    then have "NOTE_FREQUENCIES ! (m - 1) * (pitch_factor pitch * semitone_factor ty)
             < NOTE_FREQUENCIES ! (n - 1) * (pitch_factor pitch * semitone_factor ty)"
      using freq_pos_factor [of pitch ty] by (rule mult_strict_right_mono)
    moreover have "getFrequencyForNote cfg pitch ty (String_of_nat m)
        = Fin (NOTE_FREQUENCIES ! (m - 1) * pitch_factor pitch * semitone_factor ty)"
      unfolding c using pm assms by (intro getFrequency_table_value) simp_all
    moreover have "getFrequencyForNote cfg pitch ty (String_of_nat n)
        = Fin (NOTE_FREQUENCIES ! (n - 1) * pitch_factor pitch * semitone_factor ty)"
      unfolding c using pn assms by (intro getFrequency_table_value) simp_all
    ultimately show ?thesis by (simp add: mult.assoc)
  next
    assume c: "cfg = None"
    have "(2::real) powr ((real_of_int (int m) - 1) / 12) < 2 powr ((real_of_int (int n) - 1) / 12)"
      using assms by (intro powr_less_mono) simp_all
    then have "261.63 * pitch_factor pitch * 2 powr ((real_of_int (int m) - 1) / 12) * semitone_factor ty
             < 261.63 * pitch_factor pitch * 2 powr ((real_of_int (int n) - 1) / 12) * semitone_factor ty"
      using pitch_factor_bounds(1) [of pitch] semitone_factor_bounds(1) [of ty]
      by (intro mult_strict_right_mono mult_strict_left_mono) simp_all
    moreover have "getFrequencyForNote cfg pitch ty (String_of_nat m)
        = Fin (261.63 * pitch_factor pitch * 2 powr ((real_of_int (int m) - 1) / 12) * semitone_factor ty)"
      using pm assms c by (intro getFrequency_fallback) (simp_all add: in_table_def)
    moreover have "getFrequencyForNote cfg pitch ty (String_of_nat n)
        = Fin (261.63 * pitch_factor pitch * 2 powr ((real_of_int (int n) - 1) / 12) * semitone_factor ty)"
      using pn assms c by (intro getFrequency_fallback) (simp_all add: in_table_def)
    ultimately show ?thesis by simp
  qed
qed

theorem getFrequencyForNote_strictly_increasing_witness:
  "jless (getFrequencyForNote (Some NOTE_FREQUENCIES) ''low'' ''square'' ''3'')
         (getFrequencyForNote (Some NOTE_FREQUENCIES) ''low'' ''square'' ''17'')"
  using getFrequencyForNote_strictly_increasing
          [of 3 17 "Some NOTE_FREQUENCIES" "''low''" "''square''"]
  by simp









subsection \<open>The branch of \<open>playNote\<close> for a frequency that cannot be resolved\<close>


lemma new_Oscillator_defaults:
  "options (new_Oscillator no_options) =
     \<lparr>otype = ''sine'', volume = 0.3, duration = 0.5, attack = 0.01, decay = 0.1,
      sustain = 0.3, release = 0.5\<rparr>"
  "sustainMode (new_Oscillator no_options) = False"
  "currentPitch (new_Oscillator no_options) = ''medium''"
  "activeSustainedNotes (new_Oscillator no_options) = []"
  "o_activeSources (new_Oscillator no_options) = []"
  by (simp_all add: new_Oscillator_def no_options_def str_or_def num_or_def clamp01_def)



lemma perform_Inr_iff:
  "(perform cs tr = Inr tr') = (tr' = tr @ cs \<and> list_all (\<lambda>c. \<not> throws c) cs)"
  by (induction cs arbitrary: tr) auto

lemma update_absent: "map_of m k = None \<Longrightarrow> AList.update k v m = m @ [(k, v)]"
  by (induction m) (auto split: if_splits)


lemma delete_absent: "map_of m k = None \<Longrightarrow> AList.delete k m = m"
  by (induction m) (auto split: if_splits)

subsection \<open>The envelope of a note\<close>





lemma frequency_of_1:
  "getFrequencyForNote (Some NOTE_FREQUENCIES) ''medium'' ''sine'' ''1'' = Fin (261.63 * 2 powr (1 / 12))"
proof -
  have "parseInt ''1'' = Some (int 1)"
    by (simp add: parseInt_def isWhiteSpace_def digitValue_def digitsValue_def)
  then have "getFrequencyForNote (Some NOTE_FREQUENCIES) ''medium'' ''sine'' ''1''
      = Fin (NOTE_FREQUENCIES ! (1 - 1) * pitch_factor ''medium'' * semitone_factor ''sine'')"
    by (rule getFrequency_table_value) simp_all
  then show ?thesis by (simp add: NOTE_FREQUENCIES_def pitch_factor_def semitone_factor_def)
qed

lemma frequency_of_1_bounds: "0 < 261.63 * (2::real) powr (1 / 12)" "261.63 * (2::real) powr (1 / 12) < 2 ^ 128"
proof -
  show "0 < 261.63 * (2::real) powr (1 / 12)" by simp
  have "261.63 * (2::real) powr (1 / 12) \<le> 261.63 * 2"
    using semitone_bounds(2) by (intro mult_left_mono) simp_all
  also have "\<dots> < 2 ^ 128" by simp
  finally show "261.63 * (2::real) powr (1 / 12) < 2 ^ 128" .
qed



subsection \<open>Sustained notes\<close>


lemma osc_inv_new: "osc_inv (new_Oscillator opts)"
  by (simp add: osc_inv_def new_Oscillator_def)

lemma osc_inv_playSustained:
  "osc_inv osc \<Longrightarrow> osc_inv (fst (snd (playSustainedNote cfg e n v opts (osc, ctx))))"
  by (auto simp add: osc_inv_def playSustainedNote_def Let_def distinct_update
           split: option.splits sum.splits)

lemma osc_inv_playNote:
  "osc_inv osc \<Longrightarrow> osc_inv (fst (snd (Oscillator_playNote cfg e n v c (osc, ctx))))"
proof -
  assume i: "osc_inv osc"
  show ?thesis
  proof (cases "c_sustainMode c = Some True \<or> sustainMode osc")
    case True
    then have "Oscillator_playNote cfg e n v c (osc, ctx)
                 = playSustainedNote cfg e n v (merge_options (options osc) c) (osc, ctx)"
      by (simp add: Oscillator_playNote_def Let_def)
    with i show ?thesis by (simp add: osc_inv_playSustained)
  next
    case False
    with i show ?thesis
      by (auto simp add: osc_inv_def Oscillator_playNote_def Let_def split: sum.splits)
  qed
qed

lemma osc_inv_stopSustained:
  "osc_inv osc \<Longrightarrow> osc_inv (fst (stopSustainedNote e n (osc, ctx)))"
  by (auto simp add: osc_inv_def stopSustainedNote_def Let_def distinct_delete
           split: option.splits sum.splits)

lemma duration_stopSustained:
  "duration (options (fst (stopSustainedNote e n st))) = duration (options (fst st))"
  by (cases st) (auto simp add: stopSustainedNote_def Let_def split: option.splits sum.splits)

lemma duration_fold_stop:
  "duration (options (fst (fold (stopSustainedNote e) ns st))) = duration (options (fst st))"
  by (induction ns arbitrary: st) (simp_all add: duration_stopSustained)

lemma osc_inv_stopAll:
  "osc_inv osc \<Longrightarrow> osc_inv (fst (stopAllSustainedNotes e (osc, ctx)))"
proof -
  assume i: "osc_inv osc"
  obtain osc' ctx' where f: "fold (stopSustainedNote e) (map fst (activeSustainedNotes osc)) (osc, ctx) = (osc', ctx')"
    by (cases "fold (stopSustainedNote e) (map fst (activeSustainedNotes osc)) (osc, ctx)")
  have "duration (options osc') = duration (options osc)"
    using duration_fold_stop [of e "map fst (activeSustainedNotes osc)" "(osc, ctx)"] f by simp
  with i f show ?thesis by (simp add: stopAllSustainedNotes_def osc_inv_def)
qed

lemma osc_inv_step: "osc_inv (fst st) \<Longrightarrow> osc_inv (fst (osc_step cfg ev st))"
proof (cases st)
  case (Pair osc ctx)
  assume "osc_inv (fst st)"
  with Pair have i: "osc_inv osc" by simp
  show ?thesis
  proof (cases ev)
    case (OPlayNote e n v c)
    with i Pair show ?thesis using osc_inv_playNote [of osc cfg e n v c ctx] by simp
  next
    case (OPlaySustainedNote e n v opts)
    with i Pair show ?thesis using osc_inv_playSustained [of osc cfg e n v opts ctx] by simp
  next
    case (OStopSustainedNote e n)
    with i Pair show ?thesis by (simp add: osc_inv_stopSustained)
  next
    case (OStopAllSustainedNotes e)
    with i Pair show ?thesis by (simp add: osc_inv_stopAll)
  next
    case (OCleanupSource e sid)
    with i Pair show ?thesis
      by (auto simp add: Oscillator_cleanupSource_def osc_inv_def Let_def split: option.splits)
  next
    case (OSetVolume v)
    with i Pair show ?thesis by (simp add: Oscillator_setVolume_def osc_inv_def)
  next
    case (OSetDuration d)
    with i Pair show ?thesis by (simp add: Oscillator_setDuration_def osc_inv_def)
  next
    case (OSetPitch p)
    with i Pair show ?thesis by (simp add: Oscillator_setPitch_def osc_inv_def)
  next
    case (OSetSustainMode b)
    with i Pair show ?thesis by (simp add: osc_inv_def)
  qed
qed

lemma osc_inv_run: "osc_inv (fst st) \<Longrightarrow> osc_inv (fst (osc_run cfg evs st))"
  unfolding osc_run_def
  by (induction evs arbitrary: st) (simp_all add: osc_inv_step)



lemma sustained_existing:
  "map_of (activeSustainedNotes osc) noteName = Some info \<Longrightarrow>
     playSustainedNote cfg e noteName velocity opts (osc, ctx) = (Some (su_id info), osc, ctx)"
  by (simp add: playSustainedNote_def)

lemma sustained_fresh:
  assumes "map_of (activeSustainedNotes osc) noteName = None"
      and "fst (playSustainedNote cfg e noteName velocity opts (osc, ctx)) = Some sid"
  shows "calls (snd (snd (playSustainedNote cfg e noteName velocity opts (osc, ctx)))) = calls ctx @
           [CreateOscillator (fresh ctx), CreateGain (fresh ctx + 1),
            Connect (fresh ctx) (fresh ctx + 1), ConnectDestination (fresh ctx + 1),
            SetFrequency (fresh ctx)
              (getFrequencyForNote cfg (currentPitch osc) (otype (options osc)) noteName),
            SetType (fresh ctx) (otype opts),
            SetValueAtTime (fresh ctx + 1) (Const (velocity * volume opts)) (currentTime e),
            Start (fresh ctx) (currentTime e)]
         \<and> pending (snd (snd (playSustainedNote cfg e noteName velocity opts (osc, ctx)))) = pending ctx
         \<and> activeSustainedNotes (fst (snd (playSustainedNote cfg e noteName velocity opts (osc, ctx))))
             = activeSustainedNotes osc @
                [(noteName, \<lparr>su_id = sid, su_oscillator = fresh ctx, su_gainNode = fresh ctx + 1\<rparr>)]"
  using assms
  by (auto simp add: playSustainedNote_def Let_def perform_Inr_iff update_absent
           split: if_splits sum.splits)

text \<open>
  Claim C8.  \<open>playSustainedNote\<close> is idempotent per note: when the note has an entry in the
  table of sustained notes, the call returns that entry's id and changes nothing (no node
  is created, no call is made, the table is the same); \<open>playNote\<close> in sustain mode is this
  function on the merged options.  After every sequence of operations on an oscillator
  object the keys of the table are distinct, that is, there is at most one sustained
  instance per note.  A fresh sustained note gets one constant gain \<open>velocity * volume\<close>
  set at the current time and is started then: no ramp, no stop and no timer is
  scheduled, and its entry is added to the table.
\<close>

theorem playSustainedNote_idempotent:
  "(map_of (activeSustainedNotes osc) noteName = Some info \<longrightarrow>
       playSustainedNote cfg e noteName velocity opts (osc, ctx) = (Some (su_id info), osc, ctx))
   \<and> (sustainMode osc \<longrightarrow>
       Oscillator_playNote cfg e noteName velocity custom (osc, ctx)
         = playSustainedNote cfg e noteName velocity (merge_options (options osc) custom) (osc, ctx))
   \<and> distinct (map fst (activeSustainedNotes (fst (osc_run cfg evs (new_Oscillator o0, ctx0)))))
   \<and> (map_of (activeSustainedNotes osc) noteName = None
        \<and> fst (playSustainedNote cfg e noteName velocity opts (osc, ctx)) = Some sid \<longrightarrow>
         calls (snd (snd (playSustainedNote cfg e noteName velocity opts (osc, ctx)))) = calls ctx @
           [CreateOscillator (fresh ctx), CreateGain (fresh ctx + 1),
            Connect (fresh ctx) (fresh ctx + 1), ConnectDestination (fresh ctx + 1),
            SetFrequency (fresh ctx)
              (getFrequencyForNote cfg (currentPitch osc) (otype (options osc)) noteName),
            SetType (fresh ctx) (otype opts),
            SetValueAtTime (fresh ctx + 1) (Const (velocity * volume opts)) (currentTime e),
            Start (fresh ctx) (currentTime e)]
         \<and> pending (snd (snd (playSustainedNote cfg e noteName velocity opts (osc, ctx)))) = pending ctx
         \<and> activeSustainedNotes (fst (snd (playSustainedNote cfg e noteName velocity opts (osc, ctx))))
             = activeSustainedNotes osc @
                [(noteName, \<lparr>su_id = sid, su_oscillator = fresh ctx, su_gainNode = fresh ctx + 1\<rparr>)])"
proof (intro conjI impI)
  assume "map_of (activeSustainedNotes osc) noteName = Some info"
  then show "playSustainedNote cfg e noteName velocity opts (osc, ctx) = (Some (su_id info), osc, ctx)"
    by (rule sustained_existing)
next
  assume "sustainMode osc"
  then show "Oscillator_playNote cfg e noteName velocity custom (osc, ctx)
         = playSustainedNote cfg e noteName velocity (merge_options (options osc) custom) (osc, ctx)"
    by (simp add: Oscillator_playNote_def Let_def)
next
  have "osc_inv (fst (osc_run cfg evs (new_Oscillator o0, ctx0)))"
    by (rule osc_inv_run) (simp add: osc_inv_new)
  then show "distinct (map fst (activeSustainedNotes (fst (osc_run cfg evs (new_Oscillator o0, ctx0)))))"
    by (simp add: osc_inv_def)
next
  assume a: "map_of (activeSustainedNotes osc) noteName = None
        \<and> fst (playSustainedNote cfg e noteName velocity opts (osc, ctx)) = Some sid"
  note f = sustained_fresh [OF conjunct1 [OF a] conjunct2 [OF a]]
  from f show "calls (snd (snd (playSustainedNote cfg e noteName velocity opts (osc, ctx)))) = calls ctx @
           [CreateOscillator (fresh ctx), CreateGain (fresh ctx + 1),
            Connect (fresh ctx) (fresh ctx + 1), ConnectDestination (fresh ctx + 1),
            SetFrequency (fresh ctx)
              (getFrequencyForNote cfg (currentPitch osc) (otype (options osc)) noteName),
            SetType (fresh ctx) (otype opts),
            SetValueAtTime (fresh ctx + 1) (Const (velocity * volume opts)) (currentTime e),
            Start (fresh ctx) (currentTime e)]" by (rule conjunct1)
  from f show "pending (snd (snd (playSustainedNote cfg e noteName velocity opts (osc, ctx)))) = pending ctx"
    by simp
  from f show "activeSustainedNotes (fst (snd (playSustainedNote cfg e noteName velocity opts (osc, ctx))))
             = activeSustainedNotes osc @
                [(noteName, \<lparr>su_id = sid, su_oscillator = fresh ctx, su_gainNode = fresh ctx + 1\<rparr>)]"
    by simp
qed


lemma playSustained_success:
  assumes "map_of (activeSustainedNotes osc) noteName = None"
      and "getFrequencyForNote cfg (currentPitch osc) (otype (options osc)) noteName = Fin f"
      and "0 < f" "f < 2 ^ 128"
      and "otype opts \<noteq> ''custom''"
      and "0 \<le> currentTime e"
  shows "playSustainedNote cfg e noteName velocity opts (osc, ctx) =
           (Some (''sustain_'' @ noteName @ ''_'' @ String_of_int (dateNow e)),
            osc\<lparr>activeSustainedNotes := activeSustainedNotes osc @
                  [(noteName, \<lparr>su_id = ''sustain_'' @ noteName @ ''_'' @ String_of_int (dateNow e),
                              su_oscillator = fresh ctx, su_gainNode = fresh ctx + 1\<rparr>)]\<rparr>,
            ctx\<lparr>calls := calls ctx @
                  [CreateOscillator (fresh ctx), CreateGain (fresh ctx + 1),
                   Connect (fresh ctx) (fresh ctx + 1), ConnectDestination (fresh ctx + 1),
                   SetFrequency (fresh ctx) (Fin f), SetType (fresh ctx) (otype opts),
                   SetValueAtTime (fresh ctx + 1) (Const (velocity * volume opts)) (currentTime e),
                   Start (fresh ctx) (currentTime e)],
                fresh := fresh ctx + 2\<rparr>)"
  using assms by (simp add: playSustainedNote_def Let_def update_absent)

theorem playSustainedNote_idempotent_witness:
  "playSustainedNote (Some NOTE_FREQUENCIES)
       \<lparr>dateNow = 1400, currentTime = 3, rnd = ''q7''\<rparr> ''1'' 0.9
       (options (new_Oscillator no_options))
       ((new_Oscillator no_options)
          \<lparr>sustainMode := True,
           activeSustainedNotes :=
             [(''1'', \<lparr>su_id = ''sustain_1_1000'', su_oscillator = 0, su_gainNode = 1\<rparr>)]\<rparr>,
        \<lparr>calls = [], fresh = 2, pending = []\<rparr>)
     = (Some ''sustain_1_1000'',
        (new_Oscillator no_options)
          \<lparr>sustainMode := True,
           activeSustainedNotes :=
             [(''1'', \<lparr>su_id = ''sustain_1_1000'', su_oscillator = 0, su_gainNode = 1\<rparr>)]\<rparr>,
        \<lparr>calls = [], fresh = 2, pending = []\<rparr>)
   \<and> calls (snd (snd (playSustainedNote (Some NOTE_FREQUENCIES)
         \<lparr>dateNow = 1000, currentTime = 2, rnd = ''k3x9''\<rparr> ''1'' 0.7
         (options (new_Oscillator no_options))
         ((new_Oscillator no_options)\<lparr>sustainMode := True\<rparr>, empty_context))))
     = [CreateOscillator 0, CreateGain 1, Connect 0 1, ConnectDestination 1,
        SetFrequency 0 (Fin (261.63 * 2 powr (1 / 12))), SetType 0 ''sine'',
        SetValueAtTime 1 (Const 0.21) 2, Start 0 2]
   \<and> activeSustainedNotes (fst (snd (playSustainedNote (Some NOTE_FREQUENCIES)
         \<lparr>dateNow = 1000, currentTime = 2, rnd = ''k3x9''\<rparr> ''1'' 0.7
         (options (new_Oscillator no_options))
         ((new_Oscillator no_options)\<lparr>sustainMode := True\<rparr>, empty_context))))
     = [(''1'', \<lparr>su_id = ''sustain_1_1000'', su_oscillator = 0, su_gainNode = 1\<rparr>)]"
proof -
  let ?cfg = "Some NOTE_FREQUENCIES"
  let ?e1 = "\<lparr>dateNow = 1000, currentTime = 2, rnd = ''k3x9''\<rparr>"
  let ?e2 = "\<lparr>dateNow = 1400, currentTime = 3, rnd = ''q7''\<rparr>"
  let ?osc0 = "(new_Oscillator no_options)\<lparr>sustainMode := True\<rparr>"
  let ?info = "\<lparr>su_id = ''sustain_1_1000'', su_oscillator = 0, su_gainNode = 1\<rparr>"
  let ?osc1 = "(new_Oscillator no_options)\<lparr>sustainMode := True, activeSustainedNotes := [(''1'', ?info)]\<rparr>"
  let ?ctx1 = "\<lparr>calls = [], fresh = 2, pending = []\<rparr>"
  have h1: "map_of (activeSustainedNotes ?osc1) ''1'' = Some ?info" by simp
  have h0: "map_of (activeSustainedNotes ?osc0) ''1'' = None" by (simp add: new_Oscillator_defaults)
  have f: "getFrequencyForNote ?cfg (currentPitch ?osc0) (otype (options ?osc0)) ''1''
             = Fin (261.63 * 2 powr (1 / 12))"
    by (simp add: new_Oscillator_defaults frequency_of_1)
  have ok: "fst (playSustainedNote ?cfg ?e1 ''1'' 0.7 (options (new_Oscillator no_options)) (?osc0, empty_context))
             = Some ''sustain_1_1000''"
    by (simp add: playSustained_success [OF h0 f frequency_of_1_bounds]
          new_Oscillator_defaults String_of_int_def)
  note t1 = playSustainedNote_idempotent
              [of "?osc1" "''1''" "?info" "?cfg" "?e2" "0.9" "options (new_Oscillator no_options)" "?ctx1"]
  note t0 = playSustainedNote_idempotent
              [of "?osc0" "''1''" _ "?cfg" "?e1" "0.7" "options (new_Oscillator no_options)" empty_context
                  _ _ _ _ "''sustain_1_1000''"]
  from t1 h1 have a: "playSustainedNote ?cfg ?e2 ''1'' 0.9 (options (new_Oscillator no_options)) (?osc1, ?ctx1)
      = (Some ''sustain_1_1000'', ?osc1, ?ctx1)"
    by simp
  from t0 h0 ok have b: "calls (snd (snd (playSustainedNote ?cfg ?e1 ''1'' 0.7
         (options (new_Oscillator no_options)) (?osc0, empty_context))))
     = [CreateOscillator 0, CreateGain 1, Connect 0 1, ConnectDestination 1,
        SetFrequency 0 (Fin (261.63 * 2 powr (1 / 12))), SetType 0 ''sine'',
        SetValueAtTime 1 (Const 0.21) 2, Start 0 2]"
    and c: "activeSustainedNotes (fst (snd (playSustainedNote ?cfg ?e1 ''1'' 0.7
         (options (new_Oscillator no_options)) (?osc0, empty_context))))
     = [(''1'', ?info)]"
    by (simp_all add: new_Oscillator_defaults empty_context_def frequency_of_1)
  from a b c show ?thesis by simp
qed





section \<open>The player and the playback controller\<close>

subsection \<open>The registry of active sources\<close>




lemma cleanupSource_registry: "fst (cleanupSource e sid (reg, ctx)) = AList.delete sid reg"
  by (simp add: cleanupSource_def Let_def delete_absent split: option.splits)

lemma stopSource_plain:
  "list_all plain_entry reg \<Longrightarrow> fst (stopSource e sid (reg, ctx)) = AList.delete sid reg"
proof (cases "map_of reg sid")
  case None
  then show ?thesis by (simp add: stopSource_def cleanupSource_registry)
next
  case (Some info)
  assume p: "list_all plain_entry reg"
  from Some have "(sid, info) \<in> set reg" by (rule map_of_SomeD)
  with p have "si_gainNode info = None" by (auto simp add: list_all_iff plain_entry_def)
  with Some show ?thesis by (simp add: stopSource_def cleanupSource_registry)
qed




















subsection \<open>The system\<close>























subsection \<open>Forty-one notes in sequence\<close>































end
